theory Spec2Isabelle
  imports Main "HOL-Library.Char_ord"
begin

section \<open>JavaScript values\<close>

text \<open>
  A JavaScript string is a sequence of UTF-16 code units. The model holds the code units
  \<open>0..255\<close> in \<^typ>\<open>char\<close>, so \<^typ>\<open>string\<close> covers the titles and slugs
  made of Basic Latin and Latin-1 characters; \<open>length\<close> is the \<open>.length\<close> of the source.
  Objects are association lists, in key order.
\<close>

datatype jsval =
    JUndefined
  | JNull
  | JBool bool
  | JNum int
  | JStr string
  | JObj "(string \<times> jsval) list"

text \<open>Property read \<open>obj[key]\<close>: \<open>undefined\<close> when the key is absent.\<close>

definition get_prop :: "(string \<times> jsval) list \<Rightarrow> string \<Rightarrow> jsval" where
  "get_prop kvs k = (case map_of kvs k of None \<Rightarrow> JUndefined | Some v \<Rightarrow> v)"

section \<open>Slug derivation (edit form)\<close>

text \<open>The character class \<open>[a-z0-9]\<close> of the source's regular expressions.\<close>

definition is_slug_char :: "char \<Rightarrow> bool" where
  "is_slug_char c =
     ((CHR ''a'' \<le> c \<and> c \<le> CHR ''z'') \<or> (CHR ''0'' \<le> c \<and> c \<le> CHR ''9''))"

text \<open>
  \<open>String.prototype.toLowerCase\<close> on one code unit below 256: \<open>A..Z\<close> and the Latin-1
  capitals \<open>U+00C0..U+00DE\<close> (without the multiplication sign \<open>U+00D7\<close>) move up by 32.
\<close>

definition toLowerCase_unit :: "char \<Rightarrow> char" where
  "toLowerCase_unit c =
     (let n = (of_char c :: nat)
      in if (65 \<le> n \<and> n \<le> 90) \<or> (192 \<le> n \<and> n \<le> 222 \<and> n \<noteq> 215)
         then char_of (n + 32) else c)"

definition toLowerCase :: "string \<Rightarrow> string" where
  "toLowerCase s = map toLowerCase_unit s"

text \<open>
  \<open>.replace(/[^a-z0-9]+/g, '-')\<close>: the global replace scans from the left; at a code unit
  outside the class the greedy \<open>+\<close> takes every following code unit outside the class,
  the match is replaced by one hyphen and the scan goes on behind it.
\<close>

function replace_runs :: "string \<Rightarrow> string" where
  "replace_runs [] = []"
| "replace_runs (c # cs) =
     (if \<not> is_slug_char c
      then CHR ''-'' # replace_runs (dropWhile (\<lambda>d. \<not> is_slug_char d) cs)
      else c # replace_runs cs)"
  by pat_completeness auto
termination
  by (relation "measure length") (auto simp: le_imp_less_Suc length_dropWhile_le)

text \<open>
  \<open>.replace(/(^-|-$)/g, '')\<close>: a hyphen is deleted when it stands at index 0 (\<open>^-\<close>) or
  is the last code unit (\<open>-$\<close>); every other code unit is copied. The flag says whether
  the scan is at index 0.
\<close>

fun strip_edges :: "bool \<Rightarrow> string \<Rightarrow> string" where
  "strip_edges at_start [] = []"
| "strip_edges at_start (c # cs) =
     (if c = CHR ''-'' \<and> (at_start \<or> cs = [])
      then strip_edges False cs
      else c # strip_edges False cs)"

text \<open>
  The expression \<open>title.toLowerCase().replace(/[^a-z0-9]+/g, '-').replace(/(^-|-$)/g, '')\<close>,
  which the source writes twice: in \<open>generateSlug\<close> and in the title field's \<open>onChange\<close>.
\<close>

definition slugify :: "string \<Rightarrow> string" where
  "slugify t = strip_edges True (replace_runs (toLowerCase t))"

subsection \<open>The derivation in the words of the specification\<close>

text \<open>The maximal runs of a list: neighbours stay together while the predicate agrees.\<close>

function runs :: "('a \<Rightarrow> bool) \<Rightarrow> 'a list \<Rightarrow> 'a list list" where
  "runs P [] = []"
| "runs P (x # xs) =
     (x # takeWhile (\<lambda>y. P y = P x) xs) # runs P (dropWhile (\<lambda>y. P y = P x) xs)"
  by pat_completeness auto
termination
  by (relation "measure (\<lambda>(P, xs). length xs)") (auto simp: le_imp_less_Suc length_dropWhile_le)

text \<open>Every maximal run of characters outside \<open>[a-z0-9]\<close> becomes a single hyphen.\<close>

definition spec_collapse :: "string \<Rightarrow> string" where
  "spec_collapse s =
     concat (map (\<lambda>r. case r of [] \<Rightarrow> [] | x # _ \<Rightarrow> if is_slug_char x then r else ''-'')
                 (runs is_slug_char s))"

text \<open>A leading hyphen is removed, then a trailing one.\<close>

definition spec_strip :: "string \<Rightarrow> string" where
  "spec_strip s =
     (let s1 = (case s of [] \<Rightarrow> [] | c # cs \<Rightarrow> if c = CHR ''-'' then cs else s)
      in if s1 \<noteq> [] \<and> last s1 = CHR ''-'' then butlast s1 else s1)"

definition spec_slug :: "string \<Rightarrow> string" where
  "spec_slug t = spec_strip (spec_collapse (toLowerCase t))"

section \<open>Regular expressions of the validation schema\<close>

text \<open>
  The pattern of the schema uses character ranges, concatenation, repetition and a
  group; \<open>regex.test\<close> on a pattern anchored by \<open>^\<close> and \<open>$\<close> asks whether the
  whole string is in the pattern's language. The matcher takes derivatives.
\<close>

datatype regex =
    Fail
  | Eps
  | Range char char
  | Alt regex regex
  | Cat regex regex
  | Star regex

definition Plus :: "regex \<Rightarrow> regex" where
  "Plus r = Cat r (Star r)"

fun nullable :: "regex \<Rightarrow> bool" where
  "nullable Fail = False"
| "nullable Eps = True"
| "nullable (Range lo hi) = False"
| "nullable (Alt r s) = (nullable r \<or> nullable s)"
| "nullable (Cat r s) = (nullable r \<and> nullable s)"
| "nullable (Star r) = True"

fun deriv :: "char \<Rightarrow> regex \<Rightarrow> regex" where
  "deriv c Fail = Fail"
| "deriv c Eps = Fail"
| "deriv c (Range lo hi) = (if lo \<le> c \<and> c \<le> hi then Eps else Fail)"
| "deriv c (Alt r s) = Alt (deriv c r) (deriv c s)"
| "deriv c (Cat r s) =
     (if nullable r then Alt (Cat (deriv c r) s) (deriv c s) else Cat (deriv c r) s)"
| "deriv c (Star r) = Cat (deriv c r) (Star r)"

fun regex_test :: "regex \<Rightarrow> string \<Rightarrow> bool" where
  "regex_test r [] = nullable r"
| "regex_test r (c # cs) = regex_test (deriv c r) cs"

text \<open>\<open>[a-z0-9]\<close> and \<open>/^[a-z0-9]+(?:-[a-z0-9]+)*$/\<close>.\<close>

definition slug_class :: regex where
  "slug_class = Alt (Range (CHR ''a'') (CHR ''z'')) (Range (CHR ''0'') (CHR ''9''))"

definition slug_regex :: regex where
  "slug_regex =
     Cat (Plus slug_class) (Star (Cat (Range (CHR ''-'') (CHR ''-'')) (Plus slug_class)))"

text \<open>What may follow the first character of a slug: \<open>[a-z0-9]*(?:-[a-z0-9]+)*\<close>.\<close>

definition slug_tail :: regex where
  "slug_tail =
     Cat (Star slug_class) (Star (Cat (Range (CHR ''-'') (CHR ''-'')) (Plus slug_class)))"

subsection \<open>The language of a regular expression\<close>

definition conc :: "string set \<Rightarrow> string set \<Rightarrow> string set" where
  "conc A B = {u @ v | u v. u \<in> A \<and> v \<in> B}"

inductive_set star :: "string set \<Rightarrow> string set" for A :: "string set" where
  star_nil: "[] \<in> star A"
| star_step: "u \<in> A \<Longrightarrow> v \<in> star A \<Longrightarrow> u @ v \<in> star A"

fun lang :: "regex \<Rightarrow> string set" where
  "lang Fail = {}"
| "lang Eps = {[]}"
| "lang (Range lo hi) = {[c] | c. lo \<le> c \<and> c \<le> hi}"
| "lang (Alt r s) = lang r \<union> lang s"
| "lang (Cat r s) = conc (lang r) (lang s)"
| "lang (Star r) = star (lang r)"

text \<open>The words that follow a first character \<open>c\<close> in a language.\<close>

definition Deriv :: "char \<Rightarrow> string set \<Rightarrow> string set" where
  "Deriv c A = {w. c # w \<in> A}"

subsection \<open>The slug pattern in the words of the specification\<close>

text \<open>
  Lowercase alphanumeric segments separated by single hyphens: the string is the
  segments joined by hyphens, there is at least one segment, and each segment is a
  non-empty word over \<open>[a-z0-9]\<close>.
\<close>

fun join_hyphen :: "string list \<Rightarrow> string" where
  "join_hyphen [] = []"
| "join_hyphen [w] = w"
| "join_hyphen (w # ws) = w @ CHR ''-'' # join_hyphen ws"

definition is_segment :: "string \<Rightarrow> bool" where
  "is_segment w = (w \<noteq> [] \<and> list_all is_slug_char w)"

definition hyphenated_segments :: "string \<Rightarrow> bool" where
  "hyphenated_segments s =
     (\<exists>ws. ws \<noteq> [] \<and> list_all is_segment ws \<and> s = join_hyphen ws)"

text \<open>The same shape read from left to right, one character at a time.\<close>

fun seg_start :: "string \<Rightarrow> bool" and seg_rest :: "string \<Rightarrow> bool" where
  "seg_start [] = False"
| "seg_start (c # cs) = (is_slug_char c \<and> seg_rest cs)"
| "seg_rest [] = True"
| "seg_rest (c # cs) =
     (if is_slug_char c then seg_rest cs else c = CHR ''-'' \<and> seg_start cs)"

section \<open>The validation schema\<close>

text \<open>
  The schema library reports issues; a value is accepted when there is none. A string
  schema first checks the type and then runs every check of its chain; an object schema
  runs the schema of every key of its shape on that property of the input and returns
  the properties of the shape.
\<close>

datatype issue_code = invalid_type | too_small | invalid_string | invalid_enum_value

datatype zod_issue = Issue (path: string) (code: issue_code) (message: "string option")

datatype string_check = Min nat string | Regex regex string

fun run_string_check :: "string_check \<Rightarrow> string \<Rightarrow> (issue_code \<times> string option) list" where
  "run_string_check (Min n msg) s = (if length s < n then [(too_small, Some msg)] else [])"
| "run_string_check (Regex r msg) s =
     (if regex_test r s then [] else [(invalid_string, Some msg)])"

type_synonym schema = "jsval \<Rightarrow> (issue_code \<times> string option) list"

definition z_string :: "string_check list \<Rightarrow> schema" where
  "z_string checks v =
     (case v of
        JStr s \<Rightarrow> concat (map (\<lambda>c. run_string_check c s) checks)
      | _ \<Rightarrow> [(invalid_type, None)])"

definition z_any :: schema where
  "z_any v = []"

definition z_enum :: "string list \<Rightarrow> schema" where
  "z_enum options v =
     (case v of
        JStr s \<Rightarrow> if s \<in> set options then [] else [(invalid_enum_value, None)]
      | _ \<Rightarrow> [(invalid_type, None)])"

definition object_issues :: "(string \<times> schema) list \<Rightarrow> (string \<times> jsval) list \<Rightarrow> zod_issue list" where
  "object_issues shape kvs =
     concat (map (\<lambda>(k, sch). map (\<lambda>(c, m). Issue k c m) (sch (get_prop kvs k))) shape)"

definition z_object :: "(string \<times> schema) list \<Rightarrow> jsval \<Rightarrow> zod_issue list + jsval" where
  "z_object shape v =
     (case v of
        JObj kvs \<Rightarrow>
          (if object_issues shape kvs = []
           then Inr (JObj (map (\<lambda>(k, sch). (k, get_prop kvs k))
                               (filter (\<lambda>(k, sch). map_of kvs k \<noteq> None) shape)))
           else Inl (object_issues shape kvs))
      | _ \<Rightarrow> Inl [Issue [] invalid_type None])"

definition blogSchema_shape :: "(string \<times> schema) list" where
  "blogSchema_shape =
     [(''title'', z_string [Min 5 ''Title must be at least 5 characters'']),
      (''slug'', z_string [Min 5 ''Slug must be at least 5 characters'',
                           Regex slug_regex
                             ''Slug must contain only lowercase letters, numbers, and hyphens'']),
      (''excerpt'', z_string [Min 10 ''Excerpt must be at least 10 characters'']),
      (''content'', z_any),
      (''coverImage'', z_string [Min 1 ''Cover image is required'']),
      (''status'', z_enum [''draft'', ''published''])]"

definition blogSchema :: "jsval \<Rightarrow> zod_issue list + jsval" where
  "blogSchema = z_object blogSchema_shape"

definition accepts :: "jsval \<Rightarrow> bool" where
  "accepts v = (case blogSchema v of Inl issues \<Rightarrow> False | Inr data \<Rightarrow> True)"

text \<open>A record that passes every check but, perhaps, that of its slug.\<close>

definition sample_post :: "string \<Rightarrow> jsval" where
  "sample_post s =
     JObj [(''title'', JStr ''Hello''), (''slug'', JStr s),
           (''excerpt'', JStr ''0123456789''), (''content'', JObj []),
           (''coverImage'', JStr ''u''), (''status'', JStr ''draft'')]"

section \<open>Effects and responses\<close>

text \<open>
  What the components do to the outside is kept as a log, oldest first: requests,
  notifications, console output, navigation, and the two browser calls of the editor
  adapter. A request is answered by the environment: the \<open>fetch\<close> promise rejects
  with an error of some message, or there is a response with its \<open>ok\<close> flag whose
  \<open>json()\<close> either rejects with a message or gives the part of the body the caller
  reads.
\<close>

datatype toast = Toast (toast_title: string) (description: string) (variant: "string option")

datatype request =
    GET_blogs "(string \<times> string) list"
  | DELETE_blog string
  | PUT_blogs jsval

datatype effect =
    Fetch request
  | Notify toast
  | Console_error string
  | Navigate string
  | Read_as_data_URL
  | Load_image string

datatype 'b response =
    Network_failure string
  | Response bool "string + 'b"

record ui =
  effects :: "effect list"

definition emit :: "effect \<Rightarrow> ('a ui_scheme) \<Rightarrow> ('a ui_scheme)" where
  "emit e p = p\<lparr>effects := effects p @ [e]\<rparr>"

fun is_fetch :: "effect \<Rightarrow> bool" where
  "is_fetch (Fetch r) = True"
| "is_fetch e = False"

section \<open>Edit form\<close>

record blog_form =
  title :: string
  slug :: string
  excerpt :: string
  content :: jsval
  coverImage :: string
  status :: string

text \<open>
  The page: the form's values and reported issues, the \<open>isSubmitting\<close> state, and the
  number of \<open>setTimeout(generateSlug, 300)\<close> callbacks that have not run yet.
\<close>

record edit_page = ui +
  form :: blog_form
  errors :: "zod_issue list"
  isSubmitting :: bool
  slugTimers :: nat

definition defaultValues :: blog_form where
  "defaultValues =
     \<lparr>title = [], slug = [], excerpt = [], content = JObj [], coverImage = [],
      status = ''draft''\<rparr>"

definition initial_edit_page :: edit_page where
  "initial_edit_page =
     \<lparr>effects = [], form = defaultValues, errors = [], isSubmitting = False, slugTimers = 0\<rparr>"

text \<open>A page whose form is filled in, for the examples.\<close>

definition sample_edit_page :: edit_page where
  "sample_edit_page =
     \<lparr>effects = [],
      form = \<lparr>title = ''Hello World'', slug = ''hello-world'', excerpt = ''A first post.'',
               content = JStr ''<p>Hi</p>'', coverImage = ''https://example.org/a.png'',
               status = ''draft''\<rparr>,
      errors = [], isSubmitting = False, slugTimers = 0\<rparr>"

text \<open>The values object handed to the resolver, in the key order of \<open>defaultValues\<close>.\<close>

definition getValues :: "blog_form \<Rightarrow> jsval" where
  "getValues f =
     JObj [(''title'', JStr (title f)), (''slug'', JStr (slug f)),
           (''excerpt'', JStr (excerpt f)), (''content'', content f),
           (''coverImage'', JStr (coverImage f)), (''status'', JStr (status f))]"

text \<open>\<open>generateSlug\<close>: nothing happens on an empty title.\<close>

definition generateSlug :: "edit_page \<Rightarrow> edit_page" where
  "generateSlug p =
     (let t = title (form p)
      in if t = [] then p
         else p\<lparr>form := (form p)\<lparr>slug := slugify t\<rparr>\<rparr>)"

text \<open>
  The title input's \<open>onChange\<close>: the field takes the new value, then the slug is compared
  with the value derived from the title now in the form, and a timer is started.
\<close>

definition title_onChange :: "string \<Rightarrow> edit_page \<Rightarrow> edit_page" where
  "title_onChange v p =
     (let p1 = p\<lparr>form := (form p)\<lparr>title := v\<rparr>\<rparr>
      in if slug (form p1) = [] \<or> slug (form p1) = slugify (title (form p1))
         then p1\<lparr>slugTimers := Suc (slugTimers p1)\<rparr>
         else p1)"

text \<open>A started timer runs \<open>generateSlug\<close> on the form as it is then.\<close>

definition timer_fires :: "edit_page \<Rightarrow> edit_page" where
  "timer_fires p =
     (if slugTimers p = 0 then p
      else generateSlug (p\<lparr>slugTimers := slugTimers p - 1\<rparr>))"

definition slug_onChange :: "string \<Rightarrow> edit_page \<Rightarrow> edit_page" where
  "slug_onChange v p = p\<lparr>form := (form p)\<lparr>slug := v\<rparr>\<rparr>"

text \<open>The Generate button is disabled on an empty title and while submitting.\<close>

definition generate_click :: "edit_page \<Rightarrow> edit_page" where
  "generate_click p =
     (if title (form p) = [] \<or> isSubmitting p then p else generateSlug p)"

datatype edit_event =
    Title_input string
  | Slug_input string
  | Generate_click
  | Timer_fires

fun edit_step :: "edit_page \<Rightarrow> edit_event \<Rightarrow> edit_page" where
  "edit_step p (Title_input v) = title_onChange v p"
| "edit_step p (Slug_input v) = slug_onChange v p"
| "edit_step p Generate_click = generate_click p"
| "edit_step p Timer_fires = timer_fires p"

definition edit_run :: "edit_page \<Rightarrow> edit_event list \<Rightarrow> edit_page" where
  "edit_run p evs = foldl edit_step p evs"

subsection \<open>Submission\<close>

text \<open>
  The \<open>try\<close> block of \<open>onSubmit\<close> gives the page it has reached and the message of the
  error it has thrown, if any. The body read from a response that is not \<open>ok\<close> is its
  \<open>error\<close> property; an absent or empty one is falsy.
\<close>

definition onSubmit_try :: "string option response \<Rightarrow> jsval \<Rightarrow> edit_page \<Rightarrow> edit_page \<times> string option" where
  "onSubmit_try answer data p =
     (let p1 = emit (Fetch (PUT_blogs data)) (p\<lparr>isSubmitting := True\<rparr>)
      in case answer of
           Network_failure msg \<Rightarrow> (p1, Some msg)
         | Response ok body \<Rightarrow>
             (case body of
                Inl msg \<Rightarrow> (p1, Some msg)
              | Inr err \<Rightarrow>
                  if \<not> ok
                  then (p1, Some (case err of
                                    None \<Rightarrow> ''Failed to update blog''
                                  | Some e \<Rightarrow> if e = [] then ''Failed to update blog'' else e))
                  else (emit (Navigate ''/dashboard/blogs'')
                         (emit (Notify (Toast ''Success''
                            (''Blog '' @
                             (case data of
                                JObj kvs \<Rightarrow>
                                  if get_prop kvs ''status'' = JStr ''published''
                                  then ''updated & published'' else ''updated as draft''
                              | _ \<Rightarrow> ''updated as draft'') @
                             '' successfully'') None)) p1), None)))"

definition onSubmit :: "string option response \<Rightarrow> jsval \<Rightarrow> edit_page \<Rightarrow> edit_page" where
  "onSubmit answer data p =
     (let (p1, thrown) = onSubmit_try answer data p;
          p2 = (case thrown of
                  None \<Rightarrow> p1
                | Some msg \<Rightarrow>
                    emit (Notify (Toast ''Error'' msg (Some ''destructive'')))
                      (emit (Console_error ''Error updating blog:'') p1))
      in p2\<lparr>isSubmitting := False\<rparr>)"

text \<open>\<open>form.handleSubmit(onSubmit)()\<close>: the callback runs on the data the schema returns.\<close>

definition handleSubmit :: "(jsval \<Rightarrow> edit_page \<Rightarrow> edit_page) \<Rightarrow> edit_page \<Rightarrow> edit_page" where
  "handleSubmit onValid p =
     (case blogSchema (getValues (form p)) of
        Inl issues \<Rightarrow> p\<lparr>errors := issues\<rparr>
      | Inr data \<Rightarrow> onValid data (p\<lparr>errors := []\<rparr>))"

text \<open>The two action buttons; both are disabled while submitting.\<close>

definition update_draft_click :: "string option response \<Rightarrow> edit_page \<Rightarrow> edit_page" where
  "update_draft_click answer p =
     (if isSubmitting p then p
      else handleSubmit (onSubmit answer) (p\<lparr>form := (form p)\<lparr>status := ''draft''\<rparr>\<rparr>))"

definition update_publish_click :: "string option response \<Rightarrow> edit_page \<Rightarrow> edit_page" where
  "update_publish_click answer p =
     (if isSubmitting p then p
      else handleSubmit (onSubmit answer) (p\<lparr>form := (form p)\<lparr>status := ''published''\<rparr>\<rparr>))"

text \<open>The bodies of the update requests in a log.\<close>

fun payloads :: "effect list \<Rightarrow> jsval list" where
  "payloads [] = []"
| "payloads (Fetch (PUT_blogs d) # es) = d # payloads es"
| "payloads (e # es) = payloads es"

section \<open>Listing view\<close>

record author =
  author_id :: string
  author_name :: string
  author_email :: string

text \<open>The interface \<open>Blog\<close>; its fields \<open>_id\<close>, \<open>title\<close>, \<open>slug\<close> and \<open>status\<close> carry a prefix here.\<close>

record blog =
  blog_id :: string
  blog_title :: string
  blog_slug :: string
  blog_status :: string
  blog_author :: author
  createdAt :: string
  updatedAt :: string

record blogs_page = ui +
  blogs :: "blog list"
  loading :: bool
  searchTerm :: string
  filterStatus :: "string option"
  deleteDialogOpen :: bool
  blogToDelete :: "string option"

text \<open>A post with a given identifier, for the examples.\<close>

definition sample_blog :: "string \<Rightarrow> blog" where
  "sample_blog i =
     \<lparr>blog_id = i, blog_title = ''Hello World'', blog_slug = ''hello-world'',
      blog_status = ''draft'',
      blog_author = \<lparr>author_id = ''u1'', author_name = ''Ann'', author_email = ''ann@example.org''\<rparr>,
      createdAt = ''2024-01-01T00:00:00.000Z'', updatedAt = ''2024-01-02T00:00:00.000Z''\<rparr>"

definition initial_page :: blogs_page where
  "initial_page =
     \<lparr>effects = [], blogs = [], loading = True, searchTerm = [], filterStatus = None,
      deleteDialogOpen = False, blogToDelete = None\<rparr>"

text \<open>The query parameters: an empty string and \<open>null\<close> are falsy and add nothing.\<close>

definition query_params :: "blogs_page \<Rightarrow> (string \<times> string) list" where
  "query_params p =
     (if searchTerm p \<noteq> [] then [(''search'', searchTerm p)] else []) @
     (case filterStatus p of
        None \<Rightarrow> []
      | Some f \<Rightarrow> if f \<noteq> [] then [(''status'', f)] else [])"

text \<open>
  \<open>fetchBlogs\<close>: the \<open>try\<close> block gives the page it has reached and whether it has
  thrown; \<open>catch\<close> logs and notifies; \<open>finally\<close> clears the loading flag. The body
  read from the response is its \<open>blogs\<close> property.
\<close>

definition fetchBlogs_try :: "blog list response \<Rightarrow> blogs_page \<Rightarrow> blogs_page \<times> bool" where
  "fetchBlogs_try answer p =
     (let p1 = emit (Fetch (GET_blogs (query_params p))) (p\<lparr>loading := True\<rparr>)
      in case answer of
           Network_failure msg \<Rightarrow> (p1, True)
         | Response ok body \<Rightarrow>
             if \<not> ok then (p1, True)
             else (case body of
                     Inl msg \<Rightarrow> (p1, True)
                   | Inr bs \<Rightarrow> (p1\<lparr>blogs := bs\<rparr>, False)))"

definition fetchBlogs :: "blog list response \<Rightarrow> blogs_page \<Rightarrow> blogs_page" where
  "fetchBlogs answer p =
     (let (p1, thrown) = fetchBlogs_try answer p;
          p2 = (if thrown
                then emit (Notify (Toast ''Error'' ''Failed to load blogs. Please try again.''
                                      (Some ''destructive'')))
                       (emit (Console_error ''Error fetching blogs:'') p1)
                else p1)
      in p2\<lparr>loading := False\<rparr>)"

definition handleSearch :: "blog list response \<Rightarrow> blogs_page \<Rightarrow> blogs_page" where
  "handleSearch answer p = fetchBlogs answer p"

definition clearFilters :: "blogs_page \<Rightarrow> blogs_page" where
  "clearFilters p = p\<lparr>searchTerm := [], filterStatus := None\<rparr>"

text \<open>
  The effect with the dependency list \<open>[filterStatus]\<close>: after a render it runs
  \<open>fetchBlogs\<close> when there was no render before or the filter of the render before was
  another one.
\<close>

definition filterStatus_watcher_runs :: "string option option \<Rightarrow> blogs_page \<Rightarrow> bool" where
  "filterStatus_watcher_runs previous p =
     (case previous of None \<Rightarrow> True | Some f \<Rightarrow> f \<noteq> filterStatus p)"

definition filterStatus_watcher :: "string option option \<Rightarrow> blog list response \<Rightarrow> blogs_page \<Rightarrow> blogs_page" where
  "filterStatus_watcher previous answer p =
     (if filterStatus_watcher_runs previous p then fetchBlogs answer p else p)"

text \<open>A click on the clear button: the handler, then the render with its effect.\<close>

definition clear_click :: "blog list response \<Rightarrow> blogs_page \<Rightarrow> blogs_page" where
  "clear_click answer p =
     filterStatus_watcher (Some (filterStatus p)) answer (clearFilters p)"

definition confirmDelete :: "string \<Rightarrow> blogs_page \<Rightarrow> blogs_page" where
  "confirmDelete i p = p\<lparr>blogToDelete := Some i, deleteDialogOpen := True\<rparr>"

text \<open>
  \<open>handleDelete\<close> returns at once on a falsy target (\<open>null\<close> or the empty string).
  The body of the response is not read.
\<close>

definition handleDelete_try :: "unit response \<Rightarrow> string \<Rightarrow> blogs_page \<Rightarrow> blogs_page \<times> bool" where
  "handleDelete_try answer target p =
     (let p1 = emit (Fetch (DELETE_blog target)) p
      in case answer of
           Network_failure msg \<Rightarrow> (p1, True)
         | Response ok body \<Rightarrow>
             if \<not> ok then (p1, True)
             else (emit (Notify (Toast ''Success'' ''Blog deleted successfully'' None))
                     (p1\<lparr>blogs := filter (\<lambda>b. blog_id b \<noteq> target) (blogs p1)\<rparr>), False))"

definition handleDelete :: "unit response \<Rightarrow> blogs_page \<Rightarrow> blogs_page" where
  "handleDelete answer p =
     (case blogToDelete p of
        None \<Rightarrow> p
      | Some target \<Rightarrow>
          if target = [] then p
          else
            (let (p1, thrown) = handleDelete_try answer target p;
                 p2 = (if thrown
                       then emit (Notify (Toast ''Error''
                                            ''Failed to delete blog. Please try again.''
                                            (Some ''destructive'')))
                              (emit (Console_error ''Error deleting blog:'') p1)
                       else p1)
             in p2\<lparr>deleteDialogOpen := False, blogToDelete := None\<rparr>))"

text \<open>A request succeeds when there is a response and it is \<open>ok\<close>.\<close>

definition succeeded :: "'b response \<Rightarrow> bool" where
  "succeeded answer =
     (case answer of Network_failure msg \<Rightarrow> False | Response ok body \<Rightarrow> ok)"

section \<open>Editor adapter: image embedding\<close>

text \<open>
  \<open>images_upload_handler\<close> returns a promise and starts one read of the blob. The
  reader then reports the end of the read: \<open>onload\<close> with the data URL in
  \<open>reader.result\<close>, or \<open>onerror\<close>. A promise is settled once; a later \<open>resolve\<close> or
  \<open>reject\<close> changes nothing.
\<close>

datatype promise = Pending | Fulfilled string | Rejected string

datatype reader_event = Onload string | Onerror

record upload = ui +
  promise :: promise

definition resolve :: "string \<Rightarrow> upload \<Rightarrow> upload" where
  "resolve v u = (case promise u of Pending \<Rightarrow> u\<lparr>promise := Fulfilled v\<rparr> | _ \<Rightarrow> u)"

definition reject :: "string \<Rightarrow> upload \<Rightarrow> upload" where
  "reject r u = (case promise u of Pending \<Rightarrow> u\<lparr>promise := Rejected r\<rparr> | _ \<Rightarrow> u)"

definition start_upload :: upload where
  "start_upload = emit Read_as_data_URL \<lparr>effects = [], promise = Pending\<rparr>"

fun reader_callback :: "upload \<Rightarrow> reader_event \<Rightarrow> upload" where
  "reader_callback u (Onload result) = resolve result (emit (Load_image result) u)"
| "reader_callback u Onerror = reject ''error while uploading'' u"

definition images_upload_handler :: "reader_event list \<Rightarrow> upload" where
  "images_upload_handler evs = foldl reader_callback start_upload evs"

section \<open>Slug derivation: the scanners and the specification\<close>

lemma runs_concat: "concat (runs P xs) = xs"
  by (induction P xs rule: runs.induct) simp_all

lemma runs_nonempty: "[] \<notin> set (runs P xs)"
  by (induction P xs rule: runs.induct) simp_all

lemma runs_uniform: "r \<in> set (runs P xs) \<Longrightarrow> x \<in> set r \<Longrightarrow> y \<in> set r \<Longrightarrow> P x = P y"
proof (induction P xs rule: runs.induct)
  case (1 P)
  then show ?case by simp
next
  case (2 P z zs)
  show ?case
  proof (cases "r = z # takeWhile (\<lambda>y. P y = P z) zs")
    case True
    have "\<And>w. w \<in> set r \<Longrightarrow> P w = P z"
      using True by (auto dest: set_takeWhileD)
    with "2.prems"(2,3) have "P x = P z" and "P y = P z" by blast+
    then show ?thesis by simp
  next
    case False
    with "2.prems" have "r \<in> set (runs P (dropWhile (\<lambda>y. P y = P z) zs))" by simp
    with "2.IH" "2.prems" show ?thesis by blast
  qed
qed

lemma runs_maximal:
  "runs P xs = rs @ r1 # r2 # rs' \<Longrightarrow> P (last r1) \<noteq> P (hd r2)"
proof (induction P xs arbitrary: rs rule: runs.induct)
  case (1 P)
  then show ?case by simp
next
  case (2 P z zs)
  let ?d = "dropWhile (\<lambda>y. P y = P z) zs"
  let ?t = "takeWhile (\<lambda>y. P y = P z) zs"
  show ?case
  proof (cases rs)
    case Nil
    with "2.prems" have r1: "r1 = z # ?t" and rest: "runs P ?d = r2 # rs'" by simp_all
    from rest obtain d ds where d: "?d = d # ds" by (cases ?d) auto
    with rest have "hd r2 = d" by auto
    moreover have "P d \<noteq> P z"
      using hd_dropWhile [of "\<lambda>y. P y = P z" zs] d by simp
    moreover have "P (last r1) = P z"
    proof (cases "?t = []")
      case True
      with r1 show ?thesis by simp
    next
      case False
      then have "last ?t \<in> set ?t" by (rule last_in_set)
      then have "P (last ?t) = P z" by (rule set_takeWhileD [THEN conjunct2])
      with False r1 show ?thesis by simp
    qed
    ultimately show ?thesis by simp
  next
    case (Cons a as)
    with "2.prems" have "runs P ?d = as @ r1 # r2 # rs'" by simp
    then show ?thesis by (rule "2.IH")
  qed
qed

lemma spec_collapse_Nil: "spec_collapse [] = []"
  by (simp add: spec_collapse_def)

lemma spec_collapse_other:
  "\<not> is_slug_char c \<Longrightarrow>
   spec_collapse (c # cs) = CHR ''-'' # spec_collapse (dropWhile (\<lambda>d. \<not> is_slug_char d) cs)"
  by (simp add: spec_collapse_def)

lemma spec_collapse_slug_char:
  "is_slug_char c \<Longrightarrow> spec_collapse (c # cs) = c # spec_collapse cs"
proof (cases cs)
  case Nil
  assume "is_slug_char c"
  with Nil show ?thesis by (simp add: spec_collapse_def)
next
  case (Cons d ds)
  assume c: "is_slug_char c"
  show ?thesis
  proof (cases "is_slug_char d")
    case True
    with c Cons show ?thesis by (simp add: spec_collapse_def)
  next
    case False
    with c Cons show ?thesis by (simp add: spec_collapse_def)
  qed
qed

lemma replace_runs_spec: "replace_runs s = spec_collapse s"
  by (induction s rule: replace_runs.induct)
     (simp_all add: spec_collapse_Nil spec_collapse_other spec_collapse_slug_char)

lemma strip_edges_False:
  "strip_edges False s = (if s \<noteq> [] \<and> last s = CHR ''-'' then butlast s else s)"
  by (induction s) auto

lemma strip_edges_spec: "strip_edges True s = spec_strip s"
  by (cases s) (simp_all add: spec_strip_def strip_edges_False)

lemma slugify_spec: "slugify t = spec_slug t"
  by (simp add: slugify_def spec_slug_def replace_runs_spec strip_edges_spec)

section \<open>The matcher decides the language\<close>

lemma conc_empty [simp]: "conc {} B = {}" "conc A {} = {}"
  by (auto simp: conc_def)

lemma conc_eps [simp]: "conc {[]} B = B" "conc A {[]} = A"
  by (auto simp: conc_def)

lemma conc_assoc: "conc (conc A B) C = conc A (conc B C)"
proof
  show "conc (conc A B) C \<subseteq> conc A (conc B C)"
  proof
    fix w assume "w \<in> conc (conc A B) C"
    then obtain a b c where "w = (a @ b) @ c" "a \<in> A" "b \<in> B" "c \<in> C"
      unfolding conc_def by blast
    then have "w = a @ (b @ c)" "a \<in> A" "b @ c \<in> conc B C"
      unfolding conc_def by auto
    then show "w \<in> conc A (conc B C)" unfolding conc_def by blast
  qed
  show "conc A (conc B C) \<subseteq> conc (conc A B) C"
  proof
    fix w assume "w \<in> conc A (conc B C)"
    then obtain a b c where "w = a @ (b @ c)" "a \<in> A" "b \<in> B" "c \<in> C"
      unfolding conc_def by blast
    then have "w = (a @ b) @ c" "a @ b \<in> conc A B" "c \<in> C"
      unfolding conc_def by auto
    then show "w \<in> conc (conc A B) C" unfolding conc_def by blast
  qed
qed

lemma Nil_in_conc [simp]: "[] \<in> conc A B \<longleftrightarrow> [] \<in> A \<and> [] \<in> B"
  by (auto simp: conc_def)

lemma Deriv_simps [simp]:
  "Deriv c {} = {}"
  "Deriv c {[]} = {}"
  "Deriv c (A \<union> B) = Deriv c A \<union> Deriv c B"
  by (auto simp: Deriv_def)

lemma Deriv_conc:
  "Deriv c (conc A B) = conc (Deriv c A) B \<union> (if [] \<in> A then Deriv c B else {})"
  by (auto simp: Deriv_def conc_def Cons_eq_append_conv)

lemma star_cons_split:
  assumes "w \<in> star A" and "w = c # v"
  shows "\<exists>u r. v = u @ r \<and> c # u \<in> A \<and> r \<in> star A"
  using assms
proof (induction arbitrary: v rule: star.induct)
  case star_nil
  then show ?case by simp
next
  case (star_step u t)
  show ?case
  proof (cases u)
    case Nil
    with star_step show ?thesis by simp
  next
    case (Cons d ds)
    with star_step.prems have "v = ds @ t" and "d = c" by simp_all
    with Cons star_step.hyps show ?thesis by blast
  qed
qed

lemma Deriv_star: "Deriv c (star A) = conc (Deriv c A) (star A)"
proof
  show "Deriv c (star A) \<subseteq> conc (Deriv c A) (star A)"
  proof
    fix w assume "w \<in> Deriv c (star A)"
    then have "c # w \<in> star A" by (simp add: Deriv_def)
    then obtain u r where "w = u @ r" "c # u \<in> A" "r \<in> star A"
      using star_cons_split by blast
    then show "w \<in> conc (Deriv c A) (star A)" unfolding Deriv_def conc_def by blast
  qed
  show "conc (Deriv c A) (star A) \<subseteq> Deriv c (star A)"
  proof
    fix w assume "w \<in> conc (Deriv c A) (star A)"
    then obtain u r where "w = u @ r" "c # u \<in> A" "r \<in> star A"
      by (auto simp: Deriv_def conc_def)
    then have "(c # u) @ r \<in> star A" by (blast intro: star_step)
    with \<open>w = u @ r\<close> show "w \<in> Deriv c (star A)" by (simp add: Deriv_def)
  qed
qed

lemma nullable_lang: "nullable r \<longleftrightarrow> [] \<in> lang r"
  by (induction r) (auto intro: star_nil)

lemma lang_deriv: "lang (deriv c r) = Deriv c (lang r)"
proof (induction r)
  case (Range lo hi)
  then show ?case by (auto simp: Deriv_def)
next
  case (Cat r s)
  then show ?case by (simp add: Deriv_conc nullable_lang)
next
  case (Star r)
  then show ?case by (simp add: Deriv_star)
qed simp_all

lemma regex_test_lang: "regex_test r s \<longleftrightarrow> s \<in> lang r"
proof (induction s arbitrary: r)
  case Nil
  then show ?case by (simp add: nullable_lang)
next
  case (Cons c cs)
  then show ?case by (simp add: lang_deriv Deriv_def)
qed

section \<open>The slug pattern\<close>

lemma Deriv_class:
  "Deriv c (lang slug_class) = (if is_slug_char c then {[]} else {})"
  by (auto simp: Deriv_def slug_class_def is_slug_char_def)

lemma Nil_notin_class: "[] \<notin> lang slug_class"
  by (simp add: slug_class_def)

lemma Deriv_hyphen:
  "Deriv c {[d] | d. CHR ''-'' \<le> d \<and> d \<le> CHR ''-''} = (if c = CHR ''-'' then {[]} else {})"
  by (auto simp: Deriv_def)

lemma Nil_notin_hyphen: "[] \<notin> {[d] | d. CHR ''-'' \<le> d \<and> d \<le> CHR ''-''}"
  by simp

lemma hyphen_not_slug_char: "\<not> is_slug_char (CHR ''-'')"
  by (simp add: is_slug_char_def)

lemma Deriv_slug_regex:
  "Deriv c (lang slug_regex) = (if is_slug_char c then lang slug_tail else {})"
  by (simp add: slug_regex_def slug_tail_def Plus_def Deriv_conc Deriv_class Nil_notin_class)

lemma Deriv_slug_tail:
  "Deriv c (lang slug_tail) =
     (if is_slug_char c then lang slug_tail
      else if c = CHR ''-'' then lang slug_regex else {})"
  using hyphen_not_slug_char
  by (simp add: slug_regex_def slug_tail_def Plus_def Deriv_conc Deriv_star Deriv_class
        Deriv_hyphen Nil_notin_class star_nil conc_assoc del: Nil_in_conc)

lemma Cons_in_iff: "c # cs \<in> A \<longleftrightarrow> cs \<in> Deriv c A"
  by (simp add: Deriv_def)

lemma slug_lang_shape:
  "(s \<in> lang slug_regex \<longleftrightarrow> seg_start s) \<and> (s \<in> lang slug_tail \<longleftrightarrow> seg_rest s)"
proof (induction s)
  case Nil
  show ?case
    by (simp add: slug_regex_def slug_tail_def Plus_def Nil_notin_class star_nil)
next
  case (Cons c cs)
  then show ?case
    by (simp add: Cons_in_iff Deriv_slug_regex Deriv_slug_tail)
qed

lemma slug_regex_shape: "regex_test slug_regex s \<longleftrightarrow> seg_start s"
  by (simp add: regex_test_lang slug_lang_shape)

lemma seg_rest_strip:
  "seg_rest (strip_edges False (replace_runs x))"
proof (induction x rule: replace_runs.induct)
  case 1
  show ?case by simp
next
  case (2 c cs)
  show ?case
  proof (cases "is_slug_char c")
    case True
    with 2 hyphen_not_slug_char show ?thesis by auto
  next
    case False
    let ?d = "dropWhile (\<lambda>d. \<not> is_slug_char d) cs"
    from False 2 have IH: "seg_rest (strip_edges False (replace_runs ?d))" by simp
    show ?thesis
    proof (cases ?d)
      case Nil
      then have "replace_runs ?d = replace_runs []" by (rule arg_cong)
      with False show ?thesis by simp
    next
      case (Cons e es)
      then have e: "is_slug_char e" using hd_dropWhile [of "\<lambda>d. \<not> is_slug_char d" cs] by simp
      then have ne: "e \<noteq> CHR ''-''" using hyphen_not_slug_char by auto
      from IH Cons e ne have "seg_rest (strip_edges False (replace_runs es))" by simp
      with e ne Cons False show ?thesis by simp
    qed
  qed
qed

lemma slugify_shape: "slugify t = [] \<or> seg_start (slugify t)"
proof (cases "toLowerCase t")
  case Nil
  then show ?thesis by (simp add: slugify_def)
next
  case (Cons c cs)
  show ?thesis
  proof (cases "is_slug_char c")
    case True
    with Cons hyphen_not_slug_char seg_rest_strip [of cs] show ?thesis
      by (auto simp: slugify_def)
  next
    case False
    let ?d = "dropWhile (\<lambda>d. \<not> is_slug_char d) cs"
    show ?thesis
    proof (cases ?d)
      case Nil
      then have "replace_runs ?d = replace_runs []" by (rule arg_cong)
      with False Cons show ?thesis by (simp add: slugify_def)
    next
      case d: (Cons e es)
      then have e: "is_slug_char e" using hd_dropWhile [of "\<lambda>d. \<not> is_slug_char d" cs] by simp
      then have ne: "e \<noteq> CHR ''-''" using hyphen_not_slug_char by auto
      with e d False Cons seg_rest_strip [of es] show ?thesis
        by (simp add: slugify_def)
    qed
  qed
qed

subsection \<open>Segments separated by single hyphens\<close>

lemma join_hyphen_Cons: "join_hyphen (w # ws) = w @ concat (map ((#) (CHR ''-'')) ws)"
  by (induction ws arbitrary: w) simp_all

lemma seg_rest_append:
  "list_all is_slug_char v \<Longrightarrow> seg_rest (v @ r) = seg_rest r"
  by (induction v) simp_all

lemma seg_rest_tail:
  "list_all is_segment ws \<Longrightarrow> seg_rest (concat (map ((#) (CHR ''-'')) ws))"
proof (induction ws)
  case Nil
  show ?case by simp
next
  case (Cons w ws)
  then obtain c v where w: "w = c # v" and c: "is_slug_char c" and v: "list_all is_slug_char v"
    by (cases w) (auto simp: is_segment_def)
  from Cons have "seg_rest (concat (map ((#) (CHR ''-'')) ws))" by simp
  with w c v hyphen_not_slug_char show ?case by (simp add: seg_rest_append)
qed

lemma segments_seg_start:
  assumes "hyphenated_segments s"
  shows "seg_start s"
proof -
  from assms obtain us where us: "us \<noteq> []" "list_all is_segment us" "s = join_hyphen us"
    unfolding hyphenated_segments_def by blast
  then obtain w ws where "us = w # ws" by (cases us) auto
  with us have s: "s = join_hyphen (w # ws)"
    and w: "is_segment w" and ws: "list_all is_segment ws" by simp_all
  from w obtain c v where cv: "w = c # v" "is_slug_char c" "list_all is_slug_char v"
    by (cases w) (auto simp: is_segment_def)
  with ws s show ?thesis
    by (simp add: join_hyphen_Cons seg_rest_append seg_rest_tail)
qed

lemma seg_decompose:
  "(seg_start s \<longrightarrow>
      (\<exists>w ws. is_segment w \<and> list_all is_segment ws \<and>
               s = w @ concat (map ((#) (CHR ''-'')) ws))) \<and>
   (seg_rest s \<longrightarrow>
      (\<exists>v ws. list_all is_slug_char v \<and> list_all is_segment ws \<and>
               s = v @ concat (map ((#) (CHR ''-'')) ws)))"
proof (induction s)
  case Nil
  have "list_all is_slug_char [] \<and> list_all is_segment [] \<and>
        [] = [] @ concat (map ((#) (CHR ''-'')) [])" by simp
  then show ?case by (simp del: append_Nil)
next
  case (Cons c cs)
  have rest: "\<exists>v ws. list_all is_slug_char v \<and> list_all is_segment ws \<and>
                c # cs = v @ concat (map ((#) (CHR ''-'')) ws)"
    if "seg_rest (c # cs)"
  proof (cases "is_slug_char c")
    case True
    with that Cons obtain v ws where "list_all is_slug_char v" "list_all is_segment ws"
      "cs = v @ concat (map ((#) (CHR ''-'')) ws)" by auto
    with True have "list_all is_slug_char (c # v) \<and> list_all is_segment ws \<and>
      c # cs = (c # v) @ concat (map ((#) (CHR ''-'')) ws)" by simp
    then show ?thesis by blast
  next
    case False
    with that have c: "c = CHR ''-''" and "seg_start cs" by simp_all
    with Cons obtain w ws where "is_segment w" "list_all is_segment ws"
      "cs = w @ concat (map ((#) (CHR ''-'')) ws)" by auto
    with c have "list_all is_slug_char [] \<and> list_all is_segment (w # ws) \<and>
      c # cs = [] @ concat (map ((#) (CHR ''-'')) (w # ws))" by simp
    then show ?thesis by blast
  qed
  have start: "\<exists>w ws. is_segment w \<and> list_all is_segment ws \<and>
                c # cs = w @ concat (map ((#) (CHR ''-'')) ws)"
    if "seg_start (c # cs)"
  proof -
    from that have c: "is_slug_char c" and "seg_rest cs" by simp_all
    with Cons obtain v ws where "list_all is_slug_char v" "list_all is_segment ws"
      "cs = v @ concat (map ((#) (CHR ''-'')) ws)" by auto
    with c have "is_segment (c # v) \<and> list_all is_segment ws \<and>
      c # cs = (c # v) @ concat (map ((#) (CHR ''-'')) ws)" by (simp add: is_segment_def)
    then show ?thesis by blast
  qed
  from rest start show ?case by blast
qed

lemma seg_start_segments:
  assumes "seg_start s"
  shows "hyphenated_segments s"
proof -
  from assms seg_decompose [of s] obtain w ws where "is_segment w" "list_all is_segment ws"
    "s = w @ concat (map ((#) (CHR ''-'')) ws)" by blast
  then have "w # ws \<noteq> [] \<and> list_all is_segment (w # ws) \<and> s = join_hyphen (w # ws)"
    by (simp add: join_hyphen_Cons)
  then show ?thesis unfolding hyphenated_segments_def by blast
qed

lemma slug_regex_segments: "regex_test slug_regex s \<longleftrightarrow> hyphenated_segments s"
  using segments_seg_start seg_start_segments slug_regex_shape by blast

section \<open>Properties of the slug derivation\<close>

lemma slugify_hello_world: "slugify ''Hello World'' = ''hello-world''"
  by code_simp

lemma slugify_hello_world_marks: "slugify ''Hello World!!'' = ''hello-world''"
  by code_simp

lemma generateSlug_form:
  "form (generateSlug p) =
     (if title (form p) = [] then form p else (form p)\<lparr>slug := slugify (title (form p))\<rparr>)"
  by (simp add: generateSlug_def Let_def)

text \<open>
  C1. For every title, the expression of the source, which \<open>generateSlug\<close> runs for the
  Generate button and for the timer started by a title change, gives the lowercased
  title with every maximal run of characters outside \<open>[a-z0-9]\<close> replaced by one hyphen
  and a leading and a trailing hyphen removed. It maps \<open>Hello World\<close> and
  \<open>Hello World!!\<close> to \<open>hello-world\<close>. \<open>generateSlug\<close> stores that value as the slug
  and changes nothing else in the form; on an empty title it derives nothing.
\<close>

theorem slug_derivation:
  "slugify t = spec_strip (spec_collapse (toLowerCase t)) \<and>
   slugify ''Hello World'' = ''hello-world'' \<and>
   slugify ''Hello World!!'' = ''hello-world'' \<and>
   form (generateSlug p) =
     (if title (form p) = [] then form p
      else (form p)\<lparr>slug := spec_strip (spec_collapse (toLowerCase (title (form p))))\<rparr>)"
  using slugify_spec [of t] slugify_spec [of "title (form p)"]
  by (simp add: spec_slug_def slugify_hello_world slugify_hello_world_marks generateSlug_form)

text \<open>
  C7. Deriving the slug again from an unchanged title gives the same slug: a second
  \<open>generateSlug\<close> changes nothing, and \<open>generateSlug\<close> leaves the title as it is.
\<close>

theorem generateSlug_idempotent:
  "generateSlug (generateSlug p) = generateSlug p \<and>
   title (form (generateSlug p)) = title (form p)"
  by (simp add: generateSlug_def Let_def)

lemma slugify_short: "slugify ''Hi'' = ''hi''"
  by code_simp

lemma slugify_marks_only: "slugify ''!!!'' = []"
  by code_simp

lemma filter_dropWhile_not: "filter P (dropWhile (\<lambda>d. \<not> P d) xs) = filter P xs"
  by (induction xs) simp_all

lemma replace_runs_keeps: "filter is_slug_char (replace_runs x) = filter is_slug_char x"
  by (induction x rule: replace_runs.induct)
     (simp_all add: hyphen_not_slug_char filter_dropWhile_not)

lemma strip_edges_keeps: "filter is_slug_char (strip_edges b u) = filter is_slug_char u"
  by (induction u arbitrary: b) (simp_all add: hyphen_not_slug_char)

lemma slugify_keeps: "filter is_slug_char (slugify t) = filter is_slug_char (toLowerCase t)"
  by (simp add: slugify_def strip_edges_keeps replace_runs_keeps)

lemma slugify_empty_iff:
  "slugify t = [] \<longleftrightarrow> list_all (\<lambda>c. \<not> is_slug_char c) (toLowerCase t)"
proof
  assume "slugify t = []"
  then have "filter is_slug_char (toLowerCase t) = []"
    using slugify_keeps [of t] by simp
  then show "list_all (\<lambda>c. \<not> is_slug_char c) (toLowerCase t)"
    by (simp add: filter_empty_conv list_all_iff)
next
  assume all: "list_all (\<lambda>c. \<not> is_slug_char c) (toLowerCase t)"
  show "slugify t = []"
  proof (cases "toLowerCase t")
    case Nil
    then show ?thesis by (simp add: slugify_def)
  next
    case (Cons c cs)
    with all have c: "\<not> is_slug_char c" and "\<forall>d\<in>set cs. \<not> is_slug_char d"
      by (simp_all add: list_all_iff)
    then have "dropWhile (\<lambda>d. \<not> is_slug_char d) cs = []" by simp
    then have "replace_runs (dropWhile (\<lambda>d. \<not> is_slug_char d) cs) = replace_runs []"
      by (rule arg_cong)
    with c Cons show ?thesis by (simp add: slugify_def)
  qed
qed

lemma slug_regex_not_empty: "\<not> regex_test slug_regex []"
  by (simp add: slug_regex_def slug_class_def Plus_def)

text \<open>
  C10 as stated fails. On the title \<open>!!!\<close>, which is not empty, \<open>generateSlug\<close> stores
  the empty string as the slug, and the empty string does not match the pattern of the
  schema.
\<close>

theorem generated_slug_fails_pattern:
  "title (form (sample_edit_page\<lparr>form := (form sample_edit_page)\<lparr>title := ''!!!''\<rparr>\<rparr>)) = ''!!!'' \<and>
   slug (form (generateSlug
     (sample_edit_page\<lparr>form := (form sample_edit_page)\<lparr>title := ''!!!''\<rparr>\<rparr>))) = [] \<and>
   \<not> regex_test slug_regex (slug (form (generateSlug
     (sample_edit_page\<lparr>form := (form sample_edit_page)\<lparr>title := ''!!!''\<rparr>\<rparr>))))"
  by code_simp

text \<open>
  C10 as amended. For every title the derived slug matches the pattern of the schema,
  \<open>^[a-z0-9]+(?:-[a-z0-9]+)*$\<close>, exactly when it is not empty, and it is empty exactly
  when the lowercased title has no character in \<open>[a-z0-9]\<close>. A slug that matches can
  be shorter than five characters (title \<open>Hi\<close>).
\<close>

theorem slugify_matches_unless_empty:
  "regex_test slug_regex (slugify t) = (slugify t \<noteq> []) \<and>
   (slugify t = []) = list_all (\<lambda>c. \<not> is_slug_char c) (toLowerCase t) \<and>
   regex_test slug_regex (slugify ''Hi'') \<and> length (slugify ''Hi'') < 5"
proof -
  have "regex_test slug_regex (slugify t) = (slugify t \<noteq> [])"
    using slugify_shape [of t] slug_regex_not_empty by (auto simp: slug_regex_shape)
  moreover have "regex_test slug_regex (slugify ''Hi'')"
    by code_simp
  ultimately show ?thesis by (simp add: slugify_empty_iff slugify_short)
qed

section \<open>Properties of the validation schema\<close>

lemma z_string_accepts:
  "z_string checks v = [] \<longleftrightarrow>
     (\<exists>s. v = JStr s \<and> list_all (\<lambda>c. run_string_check c s = []) checks)"
  by (cases v) (auto simp: z_string_def list_all_iff)

lemma z_enum_accepts:
  "z_enum options v = [] \<longleftrightarrow> (\<exists>s. v = JStr s \<and> s \<in> set options)"
  by (cases v) (auto simp: z_enum_def)

lemma min_check_accepts: "run_string_check (Min n msg) s = [] \<longleftrightarrow> n \<le> length s"
  by auto

lemma regex_check_accepts: "run_string_check (Regex r msg) s = [] \<longleftrightarrow> regex_test r s"
  by simp

lemma object_issues_Nil [simp]: "object_issues [] kvs = []"
  by (simp add: object_issues_def)

lemma object_issues_Cons:
  "object_issues ((k, sch) # shape) kvs = [] \<longleftrightarrow>
     sch (get_prop kvs k) = [] \<and> object_issues shape kvs = []"
  by (simp add: object_issues_def)

lemma accepts_object:
  "accepts v \<longleftrightarrow> (\<exists>kvs. v = JObj kvs \<and> object_issues blogSchema_shape kvs = [])"
  by (cases v) (simp_all add: accepts_def blogSchema_def z_object_def)

lemma blogSchema_issues:
  "object_issues blogSchema_shape kvs = [] \<longleftrightarrow>
     (\<exists>t. get_prop kvs ''title'' = JStr t \<and> 5 \<le> length t) \<and>
     (\<exists>s. get_prop kvs ''slug'' = JStr s \<and> 5 \<le> length s \<and> regex_test slug_regex s) \<and>
     (\<exists>e. get_prop kvs ''excerpt'' = JStr e \<and> 10 \<le> length e) \<and>
     (\<exists>c. get_prop kvs ''coverImage'' = JStr c \<and> 1 \<le> length c) \<and>
     (\<exists>st. get_prop kvs ''status'' = JStr st \<and> (st = ''draft'' \<or> st = ''published''))"
  unfolding blogSchema_shape_def object_issues_Cons object_issues_Nil
    z_string_accepts z_enum_accepts
  by (simp add: min_check_accepts regex_check_accepts z_any_def del: run_string_check.simps)

lemma sample_slugs:
  "accepts (sample_post ''my-post-123'')"
  "accepts (sample_post ''abc12'')"
  "\<not> accepts (sample_post ''My Post'')"
  "\<not> accepts (sample_post ''-leading'')"
  "\<not> accepts (sample_post ''trailing-'')"
  "\<not> accepts (sample_post ''ab'')"
  by code_simp+

text \<open>
  C2. The schema accepts a value exactly when it is a record whose title is a string of
  length at least 5, whose slug is a string of length at least 5 that matches
  \<open>^[a-z0-9]+(?:-[a-z0-9]+)*$\<close>, whose excerpt is a string of length at least 10, whose
  cover image is a non-empty string and whose status is \<open>draft\<close> or \<open>published\<close>;
  nothing is asked of the content. The pattern holds of the non-empty words over
  \<open>[a-z0-9]\<close> joined by single hyphens. In a record that is otherwise valid the slugs
  \<open>my-post-123\<close> and \<open>abc12\<close> are accepted and \<open>My Post\<close>, \<open>-leading\<close>,
  \<open>trailing-\<close> and \<open>ab\<close> are rejected.
\<close>

theorem blogSchema_accepts:
  "(accepts v \<longleftrightarrow>
      (\<exists>kvs. v = JObj kvs \<and>
         (\<exists>t. get_prop kvs ''title'' = JStr t \<and> 5 \<le> length t) \<and>
         (\<exists>s. get_prop kvs ''slug'' = JStr s \<and> 5 \<le> length s \<and> regex_test slug_regex s) \<and>
         (\<exists>e. get_prop kvs ''excerpt'' = JStr e \<and> 10 \<le> length e) \<and>
         (\<exists>c. get_prop kvs ''coverImage'' = JStr c \<and> 1 \<le> length c) \<and>
         (\<exists>st. get_prop kvs ''status'' = JStr st \<and> (st = ''draft'' \<or> st = ''published'')))) \<and>
   (regex_test slug_regex s \<longleftrightarrow> hyphenated_segments s) \<and>
   accepts (sample_post ''my-post-123'') \<and>
   accepts (sample_post ''abc12'') \<and>
   \<not> accepts (sample_post ''My Post'') \<and>
   \<not> accepts (sample_post ''-leading'') \<and>
   \<not> accepts (sample_post ''trailing-'') \<and>
   \<not> accepts (sample_post ''ab'')"
proof -
  have "accepts v \<longleftrightarrow>
      (\<exists>kvs. v = JObj kvs \<and>
         (\<exists>t. get_prop kvs ''title'' = JStr t \<and> 5 \<le> length t) \<and>
         (\<exists>s. get_prop kvs ''slug'' = JStr s \<and> 5 \<le> length s \<and> regex_test slug_regex s) \<and>
         (\<exists>e. get_prop kvs ''excerpt'' = JStr e \<and> 10 \<le> length e) \<and>
         (\<exists>c. get_prop kvs ''coverImage'' = JStr c \<and> 1 \<le> length c) \<and>
         (\<exists>st. get_prop kvs ''status'' = JStr st \<and> (st = ''draft'' \<or> st = ''published'')))"
    by (simp only: accepts_object blogSchema_issues)
  with slug_regex_segments [of s] sample_slugs show ?thesis
    by (intro conjI)
qed

section \<open>The log of effects\<close>

lemma emit_effects [simp]: "effects (emit e p) = effects p @ [e]"
  by (simp add: emit_def)

section \<open>Properties of the listing view\<close>

text \<open>
  C3. With a pending target for which the request is made (the handler returns at once
  on \<open>null\<close> and on the empty string): when the delete request succeeds, the posts
  left are the posts with another identifier, in their order, the dialog is closed and
  a success notification is shown; when it fails (no response, or a response that is not
  \<open>ok\<close>), the collection is as before and a failure notification is shown. In both
  cases the dialog is closed and the target cleared.
\<close>

theorem handleDelete_outcomes:
  assumes "blogToDelete p = Some target" and "target \<noteq> []"
  shows "handleDelete answer p =
     (if succeeded answer
      then p\<lparr>effects := effects p @
                 [Fetch (DELETE_blog target),
                  Notify (Toast ''Success'' ''Blog deleted successfully'' None)],
             blogs := filter (\<lambda>b. blog_id b \<noteq> target) (blogs p),
             deleteDialogOpen := False, blogToDelete := None\<rparr>
      else p\<lparr>effects := effects p @
                 [Fetch (DELETE_blog target), Console_error ''Error deleting blog:'',
                  Notify (Toast ''Error'' ''Failed to delete blog. Please try again.''
                            (Some ''destructive''))],
             deleteDialogOpen := False, blogToDelete := None\<rparr>)"
proof (cases answer)
  case (Network_failure msg)
  with assms show ?thesis
    by (simp add: handleDelete_def handleDelete_try_def succeeded_def emit_def)
next
  case (Response ok body)
  with assms show ?thesis
    by (cases ok) (simp_all add: handleDelete_def handleDelete_try_def succeeded_def emit_def)
qed

text \<open>
  The theorem at a page of three posts, two of them with the target's identifier, with a
  request that succeeds, and at a page of two posts with a request that fails.
\<close>

theorem handleDelete_outcomes_witness:
  "blogToDelete (confirmDelete ''b1'' (initial_page\<lparr>blogs := [sample_blog ''b1'', sample_blog ''b2'']\<rparr>))
     = Some ''b1'' \<and>
   blogs (handleDelete (Response True (Inr ()))
            (confirmDelete ''b1'' (initial_page\<lparr>blogs := [sample_blog ''b1'', sample_blog ''b2'', sample_blog ''b1'']\<rparr>)))
     = [sample_blog ''b2''] \<and>
   blogs (handleDelete (Response False (Inr ()))
            (confirmDelete ''b1'' (initial_page\<lparr>blogs := [sample_blog ''b1'', sample_blog ''b2'']\<rparr>)))
     = [sample_blog ''b1'', sample_blog ''b2'']"
  using
    handleDelete_outcomes [of "confirmDelete ''b1'' (initial_page\<lparr>blogs := [sample_blog ''b1'', sample_blog ''b2'', sample_blog ''b1'']\<rparr>)"
      "''b1''" "Response True (Inr ())"]
    handleDelete_outcomes [of "confirmDelete ''b1'' (initial_page\<lparr>blogs := [sample_blog ''b1'', sample_blog ''b2'']\<rparr>)"
      "''b1''" "Response False (Inr ())"]
  by (simp add: confirmDelete_def initial_page_def succeeded_def sample_blog_def)

lemma handleDelete_falsy:
  "blogToDelete p = None \<or> blogToDelete p = Some [] \<Longrightarrow> handleDelete answer p = p"
  by (auto simp: handleDelete_def)

text \<open>
  C4. After \<open>fetchBlogs\<close> the loading flag is false, whatever the answer. A response
  that is \<open>ok\<close> and whose body parses replaces the collection by the body's \<open>blogs\<close>
  and shows no notification; a body that does not parse, a response that is not \<open>ok\<close>
  and a network failure leave the collection as it was and show the failure
  notification.
\<close>

theorem fetchBlogs_outcomes:
  "loading (fetchBlogs answer p) = False \<and>
   fetchBlogs (Response True (Inr bs)) p =
     p\<lparr>effects := effects p @ [Fetch (GET_blogs (query_params p))],
       blogs := bs, loading := False\<rparr> \<and>
   fetchBlogs (Response True (Inl msg)) p =
     p\<lparr>effects := effects p @
         [Fetch (GET_blogs (query_params p)), Console_error ''Error fetching blogs:'',
          Notify (Toast ''Error'' ''Failed to load blogs. Please try again.''
                    (Some ''destructive''))],
       loading := False\<rparr> \<and>
   fetchBlogs (Response False body) p =
     p\<lparr>effects := effects p @
         [Fetch (GET_blogs (query_params p)), Console_error ''Error fetching blogs:'',
          Notify (Toast ''Error'' ''Failed to load blogs. Please try again.''
                    (Some ''destructive''))],
       loading := False\<rparr> \<and>
   fetchBlogs (Network_failure msg) p =
     p\<lparr>effects := effects p @
         [Fetch (GET_blogs (query_params p)), Console_error ''Error fetching blogs:'',
          Notify (Toast ''Error'' ''Failed to load blogs. Please try again.''
                    (Some ''destructive''))],
       loading := False\<rparr>"
proof -
  have "loading (fetchBlogs answer p) = False"
    by (simp add: fetchBlogs_def Let_def split: prod.split)
  then show ?thesis
    by (simp add: fetchBlogs_def fetchBlogs_try_def emit_def)
qed

text \<open>
  C9. \<open>clearFilters\<close> sets the search term to the empty string and the status filter
  to \<open>null\<close>; it sends no request and leaves the collection and the loading flag alone.
  The reload after a click comes from the watcher of the status filter, which runs
  exactly when the filter was set before the click.
\<close>

theorem clearFilters_no_reload:
  "searchTerm (clearFilters p) = [] \<and>
   filterStatus (clearFilters p) = None \<and>
   effects (clearFilters p) = effects p \<and>
   blogs (clearFilters p) = blogs p \<and>
   loading (clearFilters p) = loading p \<and>
   filterStatus_watcher_runs (Some (filterStatus p)) (clearFilters p) = (filterStatus p \<noteq> None) \<and>
   clear_click answer p =
     (if filterStatus p = None then clearFilters p else fetchBlogs answer (clearFilters p))"
  by (auto simp: clearFilters_def clear_click_def filterStatus_watcher_def
        filterStatus_watcher_runs_def)

section \<open>Properties of the editor adapter\<close>

lemma emit_promise [simp]: "promise (emit e u) = promise u"
  by (simp add: emit_def)

lemma reader_callback_settled:
  "promise u \<noteq> Pending \<Longrightarrow> promise (reader_callback u ev) = promise u"
  by (cases ev; cases "promise u") (simp_all add: resolve_def reject_def)

lemma settled_stays:
  "promise u \<noteq> Pending \<Longrightarrow> promise (foldl reader_callback u evs) = promise u"
  by (induction evs arbitrary: u) (simp_all add: reader_callback_settled)

lemma reader_callback_no_fetch:
  "list_all (\<lambda>e. \<not> is_fetch e) (effects u) \<Longrightarrow>
   list_all (\<lambda>e. \<not> is_fetch e) (effects (reader_callback u ev))"
  by (cases ev; cases "promise u") (simp_all add: resolve_def reject_def)

lemma reader_callback_reads:
  "filter (\<lambda>e. e = Read_as_data_URL) (effects (reader_callback u ev)) =
   filter (\<lambda>e. e = Read_as_data_URL) (effects u)"
  by (cases ev; cases "promise u") (simp_all add: resolve_def reject_def)

lemma callbacks_no_fetch:
  "list_all (\<lambda>e. \<not> is_fetch e) (effects u) \<Longrightarrow>
   list_all (\<lambda>e. \<not> is_fetch e) (effects (foldl reader_callback u evs))"
  by (induction evs arbitrary: u) (simp_all add: reader_callback_no_fetch)

lemma callbacks_reads:
  "filter (\<lambda>e. e = Read_as_data_URL) (effects (foldl reader_callback u evs)) =
   filter (\<lambda>e. e = Read_as_data_URL) (effects u)"
  by (induction evs arbitrary: u) (simp_all add: reader_callback_reads)

text \<open>
  C8. Before the reader reports, the promise is pending. When the read succeeds the
  promise is fulfilled with the data URL of \<open>reader.result\<close>; when it fails the promise
  is rejected with \<open>error while uploading\<close>; whatever the reader reports later changes
  nothing. The handler sends no request and starts exactly one read.
\<close>

theorem image_embedding:
  "promise (images_upload_handler []) = Pending \<and>
   promise (images_upload_handler (Onload url # evs)) = Fulfilled url \<and>
   promise (images_upload_handler (Onerror # evs)) = Rejected ''error while uploading'' \<and>
   list_all (\<lambda>e. \<not> is_fetch e) (effects (images_upload_handler evs)) \<and>
   filter (\<lambda>e. e = Read_as_data_URL) (effects (images_upload_handler evs)) = [Read_as_data_URL]"
proof -
  have "promise (images_upload_handler (Onload url # evs)) = Fulfilled url"
    by (simp add: images_upload_handler_def settled_stays resolve_def start_upload_def)
  moreover have "promise (images_upload_handler (Onerror # evs)) = Rejected ''error while uploading''"
    by (simp add: images_upload_handler_def settled_stays reject_def start_upload_def)
  moreover have "list_all (\<lambda>e. \<not> is_fetch e) (effects (images_upload_handler evs))"
    unfolding images_upload_handler_def
    by (rule callbacks_no_fetch) (simp add: start_upload_def)
  moreover have "filter (\<lambda>e. e = Read_as_data_URL) (effects (images_upload_handler evs))
      = [Read_as_data_URL]"
    by (simp add: images_upload_handler_def callbacks_reads start_upload_def)
  ultimately show ?thesis
    by (simp add: images_upload_handler_def start_upload_def)
qed

section \<open>Properties of submission\<close>

lemma payloads_append: "payloads (xs @ ys) = payloads xs @ payloads ys"
  by (induction xs rule: payloads.induct) simp_all

lemma blogSchema_getValues:
  "blogSchema (getValues f) =
     (if accepts (getValues f) then Inr (getValues f)
      else Inl (object_issues blogSchema_shape
                  [(''title'', JStr (title f)), (''slug'', JStr (slug f)),
                   (''excerpt'', JStr (excerpt f)), (''content'', content f),
                   (''coverImage'', JStr (coverImage f)), (''status'', JStr (status f))]))"
  by (simp add: accepts_def blogSchema_def z_object_def getValues_def blogSchema_shape_def
        get_prop_def)

lemma issues_status:
  "st = ''draft'' \<or> st = ''published'' \<Longrightarrow>
   object_issues blogSchema_shape
     [(''title'', t), (''slug'', s), (''excerpt'', e), (''content'', c), (''coverImage'', i),
      (''status'', JStr st)] =
   object_issues blogSchema_shape
     [(''title'', t), (''slug'', s), (''excerpt'', e), (''content'', c), (''coverImage'', i),
      (''status'', JStr ''draft'')]"
  by (auto simp: object_issues_def blogSchema_shape_def get_prop_def z_enum_def)

lemma accepts_status:
  "accepts (getValues (f\<lparr>status := ''published''\<rparr>)) = accepts (getValues (f\<lparr>status := ''draft''\<rparr>))"
  using issues_status [of "''published''" "JStr (title f)" "JStr (slug f)" "JStr (excerpt f)"
      "content f" "JStr (coverImage f)"]
  by (simp add: accepts_def blogSchema_def z_object_def getValues_def)

lemma onSubmit_effects:
  "payloads (effects (onSubmit answer data p)) = payloads (effects p) @ [data]"
proof (cases answer)
  case (Network_failure msg)
  then show ?thesis
    by (simp add: onSubmit_def onSubmit_try_def payloads_append)
next
  case (Response ok body)
  then show ?thesis
    by (cases body; cases ok) (simp_all add: onSubmit_def onSubmit_try_def payloads_append)
qed

lemma handleSubmit_payloads:
  "payloads (effects (handleSubmit (onSubmit answer) p)) =
     payloads (effects p) @
     (if accepts (getValues (form p)) then [getValues (form p)] else [])"
  by (simp add: handleSubmit_def blogSchema_getValues onSubmit_effects)

lemma emit_errors [simp]: "errors (emit e p) = errors p"
  by (simp add: emit_def)

lemma onSubmit_errors: "errors (onSubmit answer data q) = errors q"
proof (cases answer)
  case (Network_failure msg)
  then show ?thesis
    by (simp add: onSubmit_def onSubmit_try_def)
next
  case (Response ok body)
  then show ?thesis
    by (cases body; cases ok) (simp_all add: onSubmit_def onSubmit_try_def)
qed

lemma handleSubmit_errors:
  "errors (handleSubmit (onSubmit answer) p) =
     (if accepts (getValues (form p)) then []
      else object_issues blogSchema_shape
             [(''title'', JStr (title (form p))), (''slug'', JStr (slug (form p))),
              (''excerpt'', JStr (excerpt (form p))), (''content'', content (form p)),
              (''coverImage'', JStr (coverImage (form p))),
              (''status'', JStr (status (form p)))])"
  by (simp add: handleSubmit_def blogSchema_getValues onSubmit_errors)

text \<open>
  C6. With the other fields fixed, the draft button and the publish button send the same
  record but for its status, \<open>draft\<close> for the first and \<open>published\<close> for the second.
  Both run the same validation, which does not depend on which of the two was clicked:
  either both send their record or neither sends anything, and the issues reported are
  the same. Neither sends anything while a submission is in progress.
\<close>

theorem submit_payloads:
  "payloads (effects (update_draft_click a p)) =
     payloads (effects p) @
     (if \<not> isSubmitting p \<and> accepts (getValues ((form p)\<lparr>status := ''draft''\<rparr>))
      then [getValues ((form p)\<lparr>status := ''draft''\<rparr>)] else []) \<and>
   payloads (effects (update_publish_click b p)) =
     payloads (effects p) @
     (if \<not> isSubmitting p \<and> accepts (getValues ((form p)\<lparr>status := ''draft''\<rparr>))
      then [getValues ((form p)\<lparr>status := ''published''\<rparr>)] else []) \<and>
   getValues (f\<lparr>status := st\<rparr>) =
     JObj [(''title'', JStr (title f)), (''slug'', JStr (slug f)),
           (''excerpt'', JStr (excerpt f)), (''content'', content f),
           (''coverImage'', JStr (coverImage f)), (''status'', JStr st)] \<and>
   errors (update_draft_click a p) = errors (update_publish_click b p)"
proof -
  have issues: "object_issues blogSchema_shape
             [(''title'', JStr (title (form p))), (''slug'', JStr (slug (form p))),
              (''excerpt'', JStr (excerpt (form p))), (''content'', content (form p)),
              (''coverImage'', JStr (coverImage (form p))), (''status'', JStr ''published'')] =
        object_issues blogSchema_shape
             [(''title'', JStr (title (form p))), (''slug'', JStr (slug (form p))),
              (''excerpt'', JStr (excerpt (form p))), (''content'', content (form p)),
              (''coverImage'', JStr (coverImage (form p))), (''status'', JStr ''draft'')]"
    by (rule issues_status) simp
  have "payloads (effects (update_draft_click a p)) =
     payloads (effects p) @
     (if \<not> isSubmitting p \<and> accepts (getValues ((form p)\<lparr>status := ''draft''\<rparr>))
      then [getValues ((form p)\<lparr>status := ''draft''\<rparr>)] else [])"
    by (simp add: update_draft_click_def handleSubmit_payloads)
  moreover have "payloads (effects (update_publish_click b p)) =
     payloads (effects p) @
     (if \<not> isSubmitting p \<and> accepts (getValues ((form p)\<lparr>status := ''draft''\<rparr>))
      then [getValues ((form p)\<lparr>status := ''published''\<rparr>)] else [])"
    by (simp add: update_publish_click_def handleSubmit_payloads accepts_status)
  moreover have "errors (update_draft_click a p) = errors (update_publish_click b p)"
    by (simp add: update_draft_click_def update_publish_click_def handleSubmit_errors
          accepts_status issues)
  ultimately show ?thesis by (simp add: getValues_def)
qed

text \<open>The theorem at a form that is filled in and valid.\<close>

theorem submit_payloads_witness:
  "payloads (effects (update_draft_click (Response True (Inr None)) sample_edit_page)) =
     [JObj [(''title'', JStr ''Hello World''), (''slug'', JStr ''hello-world''),
            (''excerpt'', JStr ''A first post.''), (''content'', JStr ''<p>Hi</p>''),
            (''coverImage'', JStr ''https://example.org/a.png''), (''status'', JStr ''draft'')]] \<and>
   payloads (effects (update_publish_click (Response True (Inr None)) sample_edit_page)) =
     [JObj [(''title'', JStr ''Hello World''), (''slug'', JStr ''hello-world''),
            (''excerpt'', JStr ''A first post.''), (''content'', JStr ''<p>Hi</p>''),
            (''coverImage'', JStr ''https://example.org/a.png''),
            (''status'', JStr ''published'')]]"
proof -
  have "accepts (getValues ((form sample_edit_page)\<lparr>status := ''draft''\<rparr>))"
    by code_simp
  then show ?thesis
    using submit_payloads [where a = "Response True (Inr None)" and p = sample_edit_page
        and b = "Response True (Inr None)"]
    by (simp add: sample_edit_page_def getValues_def)
qed

section \<open>Properties of the regeneration of the slug\<close>

text \<open>
  C5 as stated fails. After the user has emptied the slug, which then differs from the
  value derived from the title, the next title edit regenerates it. After the user has
  typed the slug \<open>my-post\<close> under the title \<open>Hello\<close>, a title edit to \<open>My Post\<close> starts
  a timer, and when the title is edited again before the timer runs, the slug is
  overwritten from the later title.
\<close>

theorem manual_slug_overwritten:
  "slug (form (edit_run initial_edit_page
           [Title_input ''Hello World'', Timer_fires])) = ''hello-world'' \<and>
   slug (form (edit_run initial_edit_page
           [Title_input ''Hello World'', Timer_fires, Slug_input []])) = [] \<and>
   slug (form (edit_run initial_edit_page
           [Title_input ''Hello World'', Timer_fires, Slug_input [],
            Title_input ''Hello World 2'', Timer_fires])) = ''hello-world-2'' \<and>
   slugify ''Hello'' = ''hello'' \<and>
   slug (form (edit_run initial_edit_page
           [Title_input ''Hello'', Timer_fires, Slug_input ''my-post''])) = ''my-post'' \<and>
   slug (form (edit_run initial_edit_page
           [Title_input ''Hello'', Timer_fires, Slug_input ''my-post'',
            Title_input ''My Post'', Title_input ''My Post 2'', Timer_fires])) = ''my-post-2''"
  by code_simp

lemma slugify_other_title: "slugify ''Other Title'' = ''other-title''"
  by code_simp

text \<open>
  C5 as amended. A title edit does not change the slug itself. It starts a timer when
  the slug is empty or equals the value derived from the edited title. It starts none
  when the slug is not empty and differs from the value derived from the title before
  the edit and from the value derived from the edited title. A timer that runs sets the
  slug to the value derived from the title of that moment, and leaves it alone on an
  empty title. The Generate action, when the title is not empty and no submission is in
  progress, sets the slug to the value derived from the title.
\<close>

theorem title_edit_regeneration:
  "slug (form (title_onChange v p)) = slug (form p) \<and>
   title (form (title_onChange v p)) = v \<and>
   (slug (form p) = [] \<or> slug (form p) = slugify v \<longrightarrow>
      slugTimers (title_onChange v p) = Suc (slugTimers p)) \<and>
   (slug (form p) \<noteq> [] \<and> slug (form p) \<noteq> slugify (title (form p)) \<and>
    slug (form p) \<noteq> slugify v \<longrightarrow>
      slugTimers (title_onChange v p) = slugTimers p) \<and>
   slug (form (timer_fires p)) =
     (if slugTimers p = 0 \<or> title (form p) = [] then slug (form p)
      else slugify (title (form p))) \<and>
   (title (form p) \<noteq> [] \<and> \<not> isSubmitting p \<longrightarrow>
      slug (form (generate_click p)) = slugify (title (form p)))"
  by (auto simp: title_onChange_def timer_fires_def generate_click_def generateSlug_def Let_def)

text \<open>
  The theorem at the initial page, whose slug is empty, and at a page whose slug
  \<open>my-slug\<close> differs from the values derived from the old and the new title.
\<close>

theorem title_edit_regeneration_witness:
  "slugTimers (title_onChange ''Hello'' initial_edit_page) = 1 \<and>
   slug (form (slug_onChange ''my-slug'' sample_edit_page)) = ''my-slug'' \<and>
   slugify (title (form (slug_onChange ''my-slug'' sample_edit_page))) = ''hello-world'' \<and>
   slugify ''Other Title'' = ''other-title'' \<and>
   slugTimers (title_onChange ''Other Title'' (slug_onChange ''my-slug'' sample_edit_page)) = 0 \<and>
   slug (form (title_onChange ''Other Title'' (slug_onChange ''my-slug'' sample_edit_page))) = ''my-slug'' \<and>
   slug (form (generate_click (slug_onChange ''my-slug'' sample_edit_page))) = ''hello-world''"
  using title_edit_regeneration [of "''Hello''" initial_edit_page]
    title_edit_regeneration [of "''Other Title''" "slug_onChange ''my-slug'' sample_edit_page"]
  by (simp add: initial_edit_page_def defaultValues_def sample_edit_page_def slug_onChange_def
        slugify_hello_world slugify_other_title)

end
